theory Spec2Isabelle
  imports Main "HOL-Library.Word"
begin

unbundle bit_operations_syntax

section \<open>Data model (onion\_config.h)\<close>

type_synonym uint8_t = "8 word"
type_synonym uint16_t = "16 word"
type_synonym uint32_t = "32 word"
type_synonym c_int = "32 word"

text \<open>
  \<^verbatim>\<open>typedef struct { uint8_t keycode; uint16_t threshold; bool is_pressed; } onion_key_t;\<close>
\<close>

record onion_key_t =
  keycode :: uint8_t
  threshold :: uint16_t
  is_pressed :: bool

definition MUX_CHANNELS_COUNT :: nat where
  "MUX_CHANNELS_COUNT = 16"

definition DEFAULT_THRESHOLD :: uint16_t where
  "DEFAULT_THRESHOLD = 3900"

definition mk_key :: "uint8_t \<Rightarrow> uint16_t \<Rightarrow> bool \<Rightarrow> onion_key_t" where
  "mk_key k t p = \<lparr>keycode = k, threshold = t, is_pressed = p\<rparr>"

text \<open>The compiled-in initialiser of \<^verbatim>\<open>onion_lut[16]\<close> (onion\_touch.c).\<close>

definition default_lut :: "onion_key_t list" where
  "default_lut =
    [mk_key 0x1A DEFAULT_THRESHOLD False, mk_key 0x16 DEFAULT_THRESHOLD False,
     mk_key 0x04 DEFAULT_THRESHOLD False, mk_key 0x07 DEFAULT_THRESHOLD False,
     mk_key 0x2C DEFAULT_THRESHOLD False, mk_key 0x08 DEFAULT_THRESHOLD False,
     mk_key 0x0B DEFAULT_THRESHOLD False, mk_key 0x0A DEFAULT_THRESHOLD False,
     mk_key 0x14 DEFAULT_THRESHOLD False, mk_key 0x2B DEFAULT_THRESHOLD False,
     mk_key 0x4F DEFAULT_THRESHOLD False, mk_key 0x50 DEFAULT_THRESHOLD False,
     mk_key 0x52 DEFAULT_THRESHOLD False, mk_key 0x51 DEFAULT_THRESHOLD False,
     mk_key 0x1F DEFAULT_THRESHOLD False, mk_key 0x29 DEFAULT_THRESHOLD False]"

section \<open>The durable store (ESP-IDF NVS, an external collaborator)\<close>

text \<open>
  Modelled from the spec: the Durable Store collaborator. It is the NVS library of
  ESP-IDF, which is not part of the repository, and it is modelled at its interface
  (\<open>load(key) -> bytes | NotFound | Corrupt\<close>, \<open>save(key, bytes) -> ok | IoError\<close>, a size
  mismatch on load is reported as an error) as far as \<^verbatim>\<open>onion_config_init\<close> and
  \<^verbatim>\<open>onion_config_save\<close> use it: a store holds at most one blob under the key
  \<^verbatim>\<open>"onion_lut"\<close>, and each of its calls may fail. The blob is the memory image of an array
  of \<^verbatim>\<open>onion_key_t\<close>; it is kept as the list of the records it holds, and its size in bytes
  as the number of records.
\<close>

datatype esp_err_t = ESP_OK | ESP_ERR_NVS_NOT_FOUND | ESP_ERR_NVS_INVALID_LENGTH | ESP_FAIL

record nvs_store =
  nvs_open_result :: esp_err_t      \<comment> \<open>what \<^verbatim>\<open>nvs_open\<close> returns\<close>
  nvs_read_fault :: bool            \<comment> \<open>the entry cannot be read back\<close>
  nvs_set_result :: esp_err_t       \<comment> \<open>what \<^verbatim>\<open>nvs_set_blob\<close> returns\<close>
  nvs_commit_result :: esp_err_t    \<comment> \<open>what \<^verbatim>\<open>nvs_commit\<close> returns\<close>
  nvs_blob :: "onion_key_t list option"

text \<open>
  \<^verbatim>\<open>nvs_get_blob(handle, key, buf, &size)\<close>: the error code and the buffer afterwards. The
  buffer is written only on success; a stored blob of another size than the buffer is
  reported as an error.
\<close>

definition nvs_get_blob :: "nvs_store \<Rightarrow> onion_key_t list \<Rightarrow> esp_err_t \<times> onion_key_t list" where
  "nvs_get_blob st buf =
     (if nvs_read_fault st then (ESP_FAIL, buf)
      else case nvs_blob st of
             None \<Rightarrow> (ESP_ERR_NVS_NOT_FOUND, buf)
           | Some b \<Rightarrow> if length b = length buf then (ESP_OK, b)
                       else (ESP_ERR_NVS_INVALID_LENGTH, buf))"

definition nvs_set_blob :: "nvs_store \<Rightarrow> onion_key_t list \<Rightarrow> esp_err_t \<times> nvs_store" where
  "nvs_set_blob st b =
     (if nvs_set_result st = ESP_OK then (ESP_OK, st\<lparr>nvs_blob := Some b\<rparr>)
      else (nvs_set_result st, st))"

section \<open>Global state of the firmware\<close>

text \<open>
  The globals of onion\_touch.c and onion\_ble.c, the store, and what the program has
  done to the outside: the notifications handed to the BLE stack, the characters printed,
  and how many samples it has taken from the ADC.
\<close>

record onion_state =
  onion_lut :: "onion_key_t list"
  last_states :: "bool list"
  last_raw_values :: "uint16_t list"
  conn_handle :: uint16_t
  report_handle :: uint16_t
  is_app_connected :: bool
  nvs :: nvs_store
  mux_addr :: nat
  adc_reads :: nat
  notified :: "(uint16_t \<times> uint16_t \<times> uint8_t list) list"
  stdout :: string

text \<open>The state at process start: every global at its static initialiser.\<close>

definition boot :: "nvs_store \<Rightarrow> onion_state" where
  "boot st =
     \<lparr>onion_lut = default_lut,
      last_states = replicate 16 False,
      last_raw_values = replicate 16 0,
      conn_handle = 0xFFFF,
      report_handle = 0,
      is_app_connected = False,
      nvs = st,
      mux_addr = 0,
      adc_reads = 0,
      notified = [],
      stdout = []\<rparr>"

section \<open>HID dispatcher (onion\_ble.c)\<close>

text \<open>
  \<^verbatim>\<open>
  void send_key_report(uint8_t keycode, bool pressed) {
      if (conn_handle == 0xFFFF) return;
      uint8_t report[8] = {0};
      if (pressed) report[2] = keycode;
      struct os_mbuf *om = ble_hs_mbuf_from_flat(report, sizeof(report));
      ble_gatts_notify_custom(conn_handle, report_handle, om);
  }
  \<close>
\<close>

definition build_report :: "uint8_t \<Rightarrow> bool \<Rightarrow> uint8_t list" where
  "build_report kc pressed =
     (let report = replicate 8 0
      in if pressed then report[2 := kc] else report)"

definition ble_gatts_notify_custom :: "uint16_t \<Rightarrow> uint16_t \<Rightarrow> uint8_t list \<Rightarrow> onion_state \<Rightarrow> onion_state" where
  "ble_gatts_notify_custom ch rh om s = s\<lparr>notified := notified s @ [(ch, rh, om)]\<rparr>"

definition send_key_report :: "uint8_t \<Rightarrow> bool \<Rightarrow> onion_state \<Rightarrow> onion_state" where
  "send_key_report kc pressed s =
     (if conn_handle s = 0xFFFF then s
      else ble_gatts_notify_custom (conn_handle s) (report_handle s) (build_report kc pressed) s)"

section \<open>Channel sampler and touch classifier (onion\_touch.c)\<close>

text \<open>
  The analog front end is the environment: \<open>adc n\<close> is what the \<open>n\<close>-th call of
  \<^verbatim>\<open>adc1_get_raw\<close> since process start returns (a C \<^verbatim>\<open>int\<close>), and \<open>adc_reads\<close> counts
  the calls made so far. Channel indices are natural numbers; the arrays have 16 entries
  and C leaves an access beyond them undefined, so the theorems below are stated for
  channels below 16, which are the only ones \<^verbatim>\<open>app_main\<close> passes.
\<close>

type_synonym adc_source = "nat \<Rightarrow> int"

text \<open>\<^verbatim>\<open>set_mux_address\<close>: the four address lines S0..S3 take the low four bits.\<close>

definition set_mux_address :: "nat \<Rightarrow> onion_state \<Rightarrow> onion_state" where
  "set_mux_address addr s =
     s\<lparr>mux_addr := (addr div 1 mod 2) + 2 * (addr div 2 mod 2)
                     + 4 * (addr div 4 mod 2) + 8 * (addr div 8 mod 2)\<rparr>"

text \<open>
  \<^verbatim>\<open>for(int i = 0; i < 4; i++) raw_sum += adc1_get_raw(MUX_INPUT_PIN);\<close>
  with \<open>k\<close> the number of iterations still to run and \<open>pos\<close> the index of the next sample.
  \<^verbatim>\<open>raw_sum\<close> is a \<^verbatim>\<open>uint32_t\<close>: the \<^verbatim>\<open>int\<close> is converted and the sum wraps.
\<close>

fun adc_accumulate :: "adc_source \<Rightarrow> nat \<Rightarrow> nat \<Rightarrow> uint32_t \<Rightarrow> uint32_t" where
  "adc_accumulate adc pos 0 raw_sum = raw_sum"
| "adc_accumulate adc pos (Suc k) raw_sum =
     adc_accumulate adc (Suc pos) k (raw_sum + word_of_int (adc pos))"

text \<open>
  \<^verbatim>\<open>
  bool onion_touch_read(uint8_t channel) {
      set_mux_address(channel);
      uint32_t raw_sum = 0;
      for(int i = 0; i < 4; i++) raw_sum += adc1_get_raw(MUX_INPUT_PIN);
      uint16_t adc_raw = (uint16_t)(raw_sum >> 2);
      last_raw_values[channel] = adc_raw;
      return (adc_raw < onion_lut[channel].threshold);
  }
  \<close>
\<close>

definition onion_touch_read :: "adc_source \<Rightarrow> nat \<Rightarrow> onion_state \<Rightarrow> bool \<times> onion_state" where
  "onion_touch_read adc channel s =
     (let s1 = set_mux_address channel s;
          raw_sum = adc_accumulate adc (adc_reads s1) 4 0;
          adc_raw = (ucast (drop_bit 2 raw_sum) :: uint16_t);
          s2 = s1\<lparr>adc_reads := adc_reads s1 + 4,
                  last_raw_values := (last_raw_values s1)[channel := adc_raw]\<rparr>
      in (adc_raw < threshold (onion_lut s2 ! channel), s2))"

text \<open>
  \<^verbatim>\<open>
  bool onion_touch_has_changed(uint8_t channel) {
      bool current_state = onion_touch_read(channel);
      if (current_state != last_states[channel]) {
          last_states[channel] = current_state;
          return true;
      }
      return false;
  }
  \<close>
\<close>

definition onion_touch_has_changed :: "adc_source \<Rightarrow> nat \<Rightarrow> onion_state \<Rightarrow> bool \<times> onion_state" where
  "onion_touch_has_changed adc channel s =
     (let (current_state, s1) = onion_touch_read adc channel s
      in if current_state \<noteq> last_states s1 ! channel
         then (True, s1\<lparr>last_states := (last_states s1)[channel := current_state]\<rparr>)
         else (False, s1))"

section \<open>Keymap store (onion\_touch.c)\<close>

text \<open>
  \<^verbatim>\<open>
  int onion_config_save(void) {
      err = nvs_open(NVS_NAMESPACE, NVS_READWRITE, &handle);
      if (err != ESP_OK) return err;
      err = nvs_set_blob(handle, NVS_KEY_LUT, onion_lut, sizeof(onion_lut));
      if (err == ESP_OK) err = nvs_commit(handle);
      nvs_close(handle);
      return err;
  }
  \<close>
\<close>

definition onion_config_save :: "onion_state \<Rightarrow> esp_err_t \<times> onion_state" where
  "onion_config_save s =
     (if nvs_open_result (nvs s) \<noteq> ESP_OK then (nvs_open_result (nvs s), s)
      else let (err, st) = nvs_set_blob (nvs s) (onion_lut s)
           in (if err = ESP_OK then nvs_commit_result st else err, s\<lparr>nvs := st\<rparr>))"

text \<open>
  \<^verbatim>\<open>
  int onion_config_init(void){
      err = nvs_open(NVS_NAMESPACE, NVS_READWRITE, &handle);
      if (err != ESP_OK) return err;
      size_t required_size = sizeof(onion_lut);
      err = nvs_get_blob(handle, NVS_KEY_LUT, onion_lut, &required_size);
      if (err == ESP_ERR_NVS_NOT_FOUND) onion_config_save();
      else if (err != ESP_OK) { /* log */ } else { /* log */ }
      nvs_close(handle);
      return ESP_OK;
  }
  \<close>
\<close>

definition onion_config_init :: "onion_state \<Rightarrow> esp_err_t \<times> onion_state" where
  "onion_config_init s =
     (if nvs_open_result (nvs s) \<noteq> ESP_OK then (nvs_open_result (nvs s), s)
      else let (err, buf) = nvs_get_blob (nvs s) (onion_lut s);
               s1 = s\<lparr>onion_lut := buf\<rparr>
           in if err = ESP_ERR_NVS_NOT_FOUND then (ESP_OK, snd (onion_config_save s1))
              else if err \<noteq> ESP_OK then (ESP_OK, s1)
              else (ESP_OK, s1))"

section \<open>Scan scheduler (OnionController.c)\<close>

text \<open>
  The body of the \<^verbatim>\<open>for\<close> loop of \<^verbatim>\<open>app_main\<close>, on the pair of \<^verbatim>\<open>activity_detected\<close>
  and the globals:
  \<^verbatim>\<open>
  if (onion_touch_has_changed(channel_idx)) {
      bool is_pressed = onion_touch_read(channel_idx);
      send_key_report(onion_lut[channel_idx].keycode, is_pressed);
      activity_detected = true;
  }
  \<close>
\<close>

definition scan_channel :: "adc_source \<Rightarrow> nat \<Rightarrow> bool \<times> onion_state \<Rightarrow> bool \<times> onion_state" where
  "scan_channel adc channel_idx as =
     (let (activity_detected, s) = as;
          (changed, s1) = onion_touch_has_changed adc channel_idx s
      in if changed
         then let (pressed, s2) = onion_touch_read adc channel_idx s1
              in (True, send_key_report (keycode (onion_lut s2 ! channel_idx)) pressed s2)
         else (activity_detected, s1))"

text \<open>
  \<^verbatim>\<open>for (int channel_idx = 0; channel_idx < MUX_CHANNELS_COUNT; channel_idx++) { ... }\<close>
  from a given value of the counter.
\<close>

function scan_from :: "adc_source \<Rightarrow> nat \<Rightarrow> bool \<times> onion_state \<Rightarrow> bool \<times> onion_state" where
  "scan_from adc channel_idx as =
     (if channel_idx < MUX_CHANNELS_COUNT
      then scan_from adc (Suc channel_idx) (scan_channel adc channel_idx as)
      else as)"
  by pat_completeness auto
termination
  by (relation "measure (\<lambda>(adc, channel_idx, as). MUX_CHANNELS_COUNT - channel_idx)") auto

declare scan_from.simps [simp del]

text \<open>
  One pass of the \<^verbatim>\<open>while (1)\<close> loop: the sweep, and the number of milliseconds handed
  to \<^verbatim>\<open>vTaskDelay\<close> afterwards, \<^verbatim>\<open>activity_detected ? 10 : 50\<close>.
\<close>

definition scan_cycle :: "adc_source \<Rightarrow> onion_state \<Rightarrow> nat \<times> onion_state" where
  "scan_cycle adc s =
     (let (activity_detected, s') = scan_from adc 0 (False, s)
      in (if activity_detected then 10 else 50, s'))"

section \<open>Config protocol engine (onion\_ble.c)\<close>

subsection \<open>The C library calls it makes\<close>

text \<open>
  \<^verbatim>\<open>strcmp\<close>, \<^verbatim>\<open>strncmp\<close>, \<^verbatim>\<open>sscanf\<close> and \<^verbatim>\<open>printf\<close> belong to the C library, not to the
  repository; they are modelled as far as \<^verbatim>\<open>onion_comms_task\<close> uses them. A C string ends
  at its first NUL character.
\<close>

definition cstr :: "string \<Rightarrow> string" where
  "cstr buf = takeWhile (\<lambda>c. c \<noteq> CHR 0x00) buf"

definition isspace :: "char \<Rightarrow> bool" where
  "isspace c = (c \<in> set [CHR '' '', CHR 0x09, CHR 0x0A, CHR 0x0B, CHR 0x0C, CHR 0x0D])"

definition isdigit :: "char \<Rightarrow> bool" where
  "isdigit c = (48 \<le> (of_char c :: nat) \<and> (of_char c :: nat) \<le> 57)"

text \<open>The value of a run of decimal digits, most significant first.\<close>

fun digits_value :: "int \<Rightarrow> string \<Rightarrow> int" where
  "digits_value acc [] = acc"
| "digits_value acc (c # cs) = digits_value (10 * acc + (of_char c - 48)) cs"

text \<open>What \<^verbatim>\<open>strtol\<close> returns for a value a 32-bit \<^verbatim>\<open>long\<close> cannot hold.\<close>

definition clamp_long :: "int \<Rightarrow> int" where
  "clamp_long v = (if v > 2147483647 then 2147483647
                   else if v < - 2147483648 then - 2147483648 else v)"

text \<open>
  The conversion \<^verbatim>\<open>%d\<close>: white space is skipped, a sign is optional, at least one digit
  must follow. The result is the \<^verbatim>\<open>int\<close> stored and the rest of the input.
\<close>

definition scan_d :: "string \<Rightarrow> (c_int \<times> string) option" where
  "scan_d inp =
     (let s1 = dropWhile isspace inp;
          (neg, s2) = (case s1 of
                         [] \<Rightarrow> (False, [])
                       | c # r \<Rightarrow> if c = CHR ''-'' then (True, r)
                                  else if c = CHR ''+'' then (False, r)
                                  else (False, s1));
          ds = takeWhile isdigit s2
      in if ds = [] then None
         else Some (word_of_int (clamp_long (if neg then - digits_value 0 ds else digits_value 0 ds)),
                    dropWhile isdigit s2))"

text \<open>An ordinary character of the format must be the next character of the input.\<close>

fun match_lit :: "string \<Rightarrow> string \<Rightarrow> string option" where
  "match_lit [] inp = Some inp"
| "match_lit (f # fs) [] = None"
| "match_lit (f # fs) (c # cs) = (if f = c then match_lit fs cs else None)"

text \<open>
  \<^verbatim>\<open>sscanf(line, "SET:%d,%d,%d", &ch, &thr, &key) == 3\<close>: the three integers when all
  three conversions succeed, \<open>None\<close> when the call returns less than 3.
\<close>

definition sscanf_SET :: "string \<Rightarrow> (c_int \<times> c_int \<times> c_int) option" where
  "sscanf_SET line =
     Option.bind (match_lit ''SET:'' line) (\<lambda>r0.
     Option.bind (scan_d r0) (\<lambda>(ch, r1).
     Option.bind (match_lit '','' r1) (\<lambda>r2.
     Option.bind (scan_d r2) (\<lambda>(thr, r3).
     Option.bind (match_lit '','' r3) (\<lambda>r4.
     Option.bind (scan_d r4) (\<lambda>(key, r5). Some (ch, thr, key)))))))"

text \<open>\<^verbatim>\<open>%d\<close> and \<^verbatim>\<open>%u\<close> of \<^verbatim>\<open>printf\<close>, for a value that is not negative.\<close>

fun dec :: "nat \<Rightarrow> string" where
  "dec n = (if n < 10 then [char_of (48 + n)]
            else dec (n div 10) @ [char_of (48 + n mod 10)])"

subsection \<open>The task\<close>

text \<open>
  \<^verbatim>\<open>for(int i = 0; i < 16; i++)
     printf("CFG:%d,%d,%d\n", i, local_lut_ptr[i].threshold, local_lut_ptr[i].keycode);\<close>
  where \<^verbatim>\<open>local_lut_ptr\<close> is \<^verbatim>\<open>onion_lut\<close> (set by \<^verbatim>\<open>onion_ble_init\<close> before the task starts).
\<close>

definition cfg_line :: "onion_state \<Rightarrow> nat \<Rightarrow> string" where
  "cfg_line s i =
     ''CFG:'' @ dec i @ '','' @ dec (unat (threshold (onion_lut s ! i))) @ '',''
       @ dec (unat (keycode (onion_lut s ! i))) @ [CHR 0x0A]"

definition print_cfg :: "onion_state \<Rightarrow> onion_state" where
  "print_cfg s = s\<lparr>stdout := stdout s @ concat (map (cfg_line s) [0..<16])\<rparr>"

text \<open>
  The handling of one complete line (the block under \<^verbatim>\<open>if (line_ptr > 0)\<close>):
  \<^verbatim>\<open>
  if (strcmp(line, "CONNECT") == 0) { is_app_connected = true; /* CFG lines */ }
  else if (strcmp(line, "DISCONNECT") == 0) { is_app_connected = false; }
  else if (strncmp(line, "SET:", 4) == 0) {
      int ch, thr, key;
      if (sscanf(line, "SET:%d,%d,%d", &ch, &thr, &key) == 3) {
          if (ch >= 0 && ch < 16) {
              local_lut_ptr[ch].threshold = thr;
              local_lut_ptr[ch].keycode = (uint8_t)key;
              onion_config_save();
          }
      }
  }
  \<close>
  The assignments convert the \<^verbatim>\<open>int\<close> to \<^verbatim>\<open>uint16_t\<close> and \<^verbatim>\<open>uint8_t\<close>, which keeps the low
  bits.
\<close>

definition set_key :: "c_int \<Rightarrow> c_int \<Rightarrow> c_int \<Rightarrow> onion_state \<Rightarrow> onion_state" where
  "set_key ch thr key s =
     (let i = nat (sint ch);
          s1 = s\<lparr>onion_lut := (onion_lut s)[i := (onion_lut s ! i)\<lparr>threshold := ucast thr\<rparr>]\<rparr>;
          s2 = s1\<lparr>onion_lut := (onion_lut s1)[i := (onion_lut s1 ! i)\<lparr>keycode := ucast key\<rparr>]\<rparr>
      in snd (onion_config_save s2))"

definition process_line :: "string \<Rightarrow> onion_state \<Rightarrow> onion_state" where
  "process_line line s =
     (if line = ''CONNECT'' then print_cfg (s\<lparr>is_app_connected := True\<rparr>)
      else if line = ''DISCONNECT'' then s\<lparr>is_app_connected := False\<rparr>
      else if take 4 line = ''SET:'' then
        (case sscanf_SET line of
           Some (ch, thr, key) \<Rightarrow>
             if 0 \<le>s ch \<and> ch <s 16 then set_key ch thr key s else s
         | None \<Rightarrow> s)
      else s)"

text \<open>
  The inbound half of one iteration of the task's loop, on the characters accumulated so
  far (\<^verbatim>\<open>line_ptr\<close> is their number) and the globals; \<open>c\<close> is what \<^verbatim>\<open>fgetc(stdin)\<close> returned.
  \<^verbatim>\<open>
  if (c != EOF) {
      if (c == '\n' || c == '\r' || line_ptr >= sizeof(line) - 1) {
          line[line_ptr] = '\0';
          if (line_ptr > 0) { ... }
          line_ptr = 0;
      } else {
          line[line_ptr++] = (char)c;
      }
  }
  \<close>
\<close>

definition EOF :: int where
  "EOF = - 1"

definition comms_receive :: "int \<Rightarrow> string \<times> onion_state \<Rightarrow> string \<times> onion_state" where
  "comms_receive c ls =
     (let (line, s) = ls
      in if c \<noteq> EOF then
           if c = 10 \<or> c = 13 \<or> length line \<ge> 128 - 1
           then ([], if length line > 0 then process_line (cstr line) s else s)
           else (line @ [char_of c], s)
         else (line, s))"

text \<open>
  The outbound half:
  \<^verbatim>\<open>
  if (is_app_connected) {
      printf("RAW:");
      for (int i = 0; i < 16; i++) printf("%u%s", last_raw_values[i], (i == 15) ? "" : ",");
      printf("\n");
  }
  \<close>
\<close>

definition raw_field :: "onion_state \<Rightarrow> nat \<Rightarrow> string" where
  "raw_field s i = dec (unat (last_raw_values s ! i)) @ (if i = 15 then [] else '','')"

definition telemetry :: "onion_state \<Rightarrow> onion_state" where
  "telemetry s =
     (if is_app_connected s
      then s\<lparr>stdout := stdout s @ ''RAW:'' @ concat (map (raw_field s) [0..<16]) @ [CHR 0x0A]\<rparr>
      else s)"

definition onion_comms_iter :: "int \<Rightarrow> string \<times> onion_state \<Rightarrow> string \<times> onion_state" where
  "onion_comms_iter c ls = (let (line, s) = comms_receive c ls in (line, telemetry s))"

section \<open>Notions used to state the properties\<close>

text \<open>
  The truncating mean of the four consecutive samples that start at position \<open>n\<close> of the
  ADC's output.
\<close>

definition mean4 :: "adc_source \<Rightarrow> nat \<Rightarrow> int" where
  "mean4 adc n = (adc n + adc (n + 1) + adc (n + 2) + adc (n + 3)) div 4"

text \<open>The persisted content of a keymap: its (keycode, threshold) pairs, in channel order.\<close>

definition pairs :: "onion_key_t list \<Rightarrow> (uint8_t \<times> uint16_t) list" where
  "pairs lut = map (\<lambda>k. (keycode k, threshold k)) lut"

text \<open>A store on which every call succeeds.\<close>

definition nvs_healthy :: "nvs_store \<Rightarrow> bool" where
  "nvs_healthy st = (nvs_open_result st = ESP_OK \<and> \<not> nvs_read_fault st
                     \<and> nvs_set_result st = ESP_OK \<and> nvs_commit_result st = ESP_OK)"

text \<open>
  The channels on which \<^verbatim>\<open>onion_touch_has_changed\<close> returns true during the sweep that
  starts at \<open>channel_idx\<close>: the edges of the cycle, in the order in which they fire.
\<close>

function edge_channels :: "adc_source \<Rightarrow> nat \<Rightarrow> onion_state \<Rightarrow> nat list" where
  "edge_channels adc channel_idx s =
     (if channel_idx < MUX_CHANNELS_COUNT
      then (if fst (onion_touch_has_changed adc channel_idx s) then [channel_idx] else [])
           @ edge_channels adc (Suc channel_idx) (snd (scan_channel adc channel_idx (False, s)))
      else [])"
  by pat_completeness auto
termination
  by (relation "measure (\<lambda>(adc, channel_idx, s). MUX_CHANNELS_COUNT - channel_idx)") auto

declare edge_channels.simps [simp del]

subsection \<open>Concrete stores, states and inputs\<close>

text \<open>An empty store that works, and a store that holds a blob of 17 records.\<close>

definition nvs_ok :: nvs_store where
  "nvs_ok = \<lparr>nvs_open_result = ESP_OK, nvs_read_fault = False, nvs_set_result = ESP_OK,
             nvs_commit_result = ESP_OK, nvs_blob = None\<rparr>"

definition nvs_long :: nvs_store where
  "nvs_long = \<lparr>nvs_open_result = ESP_OK, nvs_read_fault = False, nvs_set_result = ESP_OK,
               nvs_commit_result = ESP_OK,
               nvs_blob = Some (default_lut @ [mk_key 0x04 100 False])\<rparr>"

text \<open>The state after start-up with a BLE host connected under handle 1.\<close>

definition boot_connected :: onion_state where
  "boot_connected = (boot nvs_ok)\<lparr>conn_handle := 1\<rparr>"

text \<open>
  A finger that lands on pad 0 while the signal is still close to the default threshold
  of 3900: the first four samples average 3890, all later ones 3910.
\<close>

definition adc_glitch :: adc_source where
  "adc_glitch n = (if n < 4 then 3890 else 3910)"

section \<open>Properties\<close>

subsection \<open>HID dispatcher\<close>

lemma build_report_eq: "build_report kc p = [0, 0, if p then kc else 0, 0, 0, 0, 0, 0]"
  by (simp add: build_report_def Let_def numeral_eq_Suc)

lemma send_key_report_frame:
  "last_states (send_key_report kc p s) = last_states s"
  "onion_lut (send_key_report kc p s) = onion_lut s"
  by (simp_all add: send_key_report_def ble_gatts_notify_custom_def)

text \<open>
  C6. \<^verbatim>\<open>send_key_report(keycode, pressed)\<close>: while no host is connected
  (\<^verbatim>\<open>conn_handle == 0xFFFF\<close>) the call changes nothing, so nothing is handed to the
  transport's notify primitive; otherwise exactly one notification is appended, sent on
  the current connection and report handles, and its payload is the 8 bytes
  \<open>0, 0, (keycode if pressed else 0), 0, 0, 0, 0, 0\<close>.
\<close>

theorem send_key_report_spec:
  "(conn_handle s = 0xFFFF \<longrightarrow> send_key_report kc p s = s) \<and>
   (conn_handle s \<noteq> 0xFFFF \<longrightarrow>
      send_key_report kc p s
        = s\<lparr>notified := notified s
              @ [(conn_handle s, report_handle s, [0, 0, if p then kc else 0, 0, 0, 0, 0, 0])]\<rparr>)"
  by (simp add: send_key_report_def ble_gatts_notify_custom_def build_report_eq)

text \<open>
  The scenario of the specification, \<^verbatim>\<open>dispatch(0x1A, true)\<close> while disconnected, and the
  press and release reports once a host is connected.
\<close>

theorem send_key_report_spec_witness:
  "conn_handle (boot nvs_ok) = 0xFFFF
   \<and> send_key_report 0x1A True (boot nvs_ok) = boot nvs_ok
   \<and> notified (send_key_report 0x1A True (boot nvs_ok)) = []
   \<and> conn_handle boot_connected \<noteq> 0xFFFF
   \<and> notified (send_key_report 0x1A True boot_connected) = [(1, 0, [0, 0, 0x1A, 0, 0, 0, 0, 0])]
   \<and> notified (send_key_report 0x1A False boot_connected) = [(1, 0, [0, 0, 0, 0, 0, 0, 0, 0])]"
proof -
  have a: "conn_handle (boot nvs_ok) = 0xFFFF" "notified (boot nvs_ok) = []"
    by (simp_all add: boot_def)
  have b: "conn_handle boot_connected = 1" "report_handle boot_connected = 0"
    "notified boot_connected = []"
    by (simp_all add: boot_connected_def boot_def)
  from send_key_report_spec [of "boot nvs_ok" "0x1A" True]
       send_key_report_spec [of boot_connected "0x1A" True]
       send_key_report_spec [of boot_connected "0x1A" False] a b
  show ?thesis by simp
qed

subsection \<open>Channel sampler and classifier\<close>

lemma adc_accumulate_4:
  "adc_accumulate adc pos 4 acc =
     acc + word_of_int (adc pos) + word_of_int (adc (pos + 1))
       + word_of_int (adc (pos + 2)) + word_of_int (adc (pos + 3))"
  by (simp add: numeral_eq_Suc)

text \<open>
  Four samples of 16 bits cannot overflow the 32-bit sum, and their mean fits the 16-bit
  result again.
\<close>

lemma mean_fits:
  fixes a b c d :: int
  assumes "0 \<le> a" "a < 65536" "0 \<le> b" "b < 65536" "0 \<le> c" "c < 65536" "0 \<le> d" "d < 65536"
  shows "uint (ucast (drop_bit 2
            (word_of_int a + word_of_int b + word_of_int c + word_of_int d :: 32 word)) :: 16 word)
         = (a + b + c + d) div 4"
proof -
  let ?n = "a + b + c + d"
  let ?w = "word_of_int ?n :: 32 word"
  have s: "0 \<le> ?n" "?n < 262144" using assms by auto
  have e: "word_of_int a + word_of_int b + word_of_int c + word_of_int d = ?w" by simp
  have "uint ?w = ?n mod 2 ^ LENGTH(32)" by (rule uint_word_of_int)
  also have "\<dots> = ?n" using s by simp
  finally have u: "uint ?w = ?n" .
  have "uint (drop_bit 2 ?w) = drop_bit 2 (take_bit LENGTH(32) (uint ?w))"
    by (rule unsigned_drop_bit_eq)
  also have "\<dots> = drop_bit 2 (?n mod 2 ^ 32)" by (simp only: u take_bit_eq_mod) simp
  also have "\<dots> = ?n div 4" using s by (simp add: drop_bit_eq_div)
  finally have d: "uint (drop_bit 2 ?w) = ?n div 4" .
  have "uint (ucast (drop_bit 2 ?w) :: 16 word) = take_bit LENGTH(16) (uint (drop_bit 2 ?w))"
    by (rule unsigned_ucast_eq)
  also have "\<dots> = (?n div 4) mod 2 ^ 16" by (simp only: d take_bit_eq_mod) simp
  also have "\<dots> = ?n div 4" using s by simp
  finally show ?thesis by (simp only: e)
qed

lemma touch_read_frame:
  "onion_lut (snd (onion_touch_read adc c s)) = onion_lut s"
  "last_states (snd (onion_touch_read adc c s)) = last_states s"
  "nvs (snd (onion_touch_read adc c s)) = nvs s"
  "notified (snd (onion_touch_read adc c s)) = notified s"
  "conn_handle (snd (onion_touch_read adc c s)) = conn_handle s"
  "report_handle (snd (onion_touch_read adc c s)) = report_handle s"
  "adc_reads (snd (onion_touch_read adc c s)) = adc_reads s + 4"
  by (simp_all add: onion_touch_read_def set_mux_address_def Let_def)

text \<open>
  \<^verbatim>\<open>set_mux_address\<close> puts a channel below 16 on the address lines of the multiplexer as
  it is.
\<close>

lemma mux_select:
  assumes "addr < 16"
  shows "mux_addr (set_mux_address addr s) = addr"
proof -
  from assms have "addr \<in> set [0..<16]" by simp
  then have "addr \<in> {0, 1, 2, 3, 4, 5, 6, 7, 8, 9, 10, 11, 12, 13, 14, 15}"
    by (simp only: upt_conv_Cons upt_rec [of 15 16]) (simp add: numeral_eq_Suc upt_rec)
  then show ?thesis
    by (elim insertE emptyE) (simp_all add: set_mux_address_def)
qed

text \<open>
  \<^verbatim>\<open>onion_touch_read\<close> selects its channel on the multiplexer before it samples, and the
  selection is still in place when it returns.
\<close>

lemma touch_read_mux:
  assumes "channel < 16"
  shows "mux_addr (snd (onion_touch_read adc channel s)) = channel"
  using mux_select [OF assms, of s]
  by (simp add: onion_touch_read_def Let_def)

text \<open>
  C8. For a channel below 16 and four raw readings in the range of \<^verbatim>\<open>uint16_t\<close>,
  \<^verbatim>\<open>onion_touch_read\<close> selects the channel on the multiplexer, returns whether the
  truncating mean of the four readings taken then is below the channel's threshold, and
  leaves that mean in the channel's slot of \<^verbatim>\<open>last_raw_values\<close>; the slots of the other
  channels keep their values.
\<close>

theorem onion_touch_read_spec:
  assumes c: "channel < 16" and len: "length (last_raw_values s) = 16"
    and rng: "\<forall>i<4. 0 \<le> adc (adc_reads s + i) \<and> adc (adc_reads s + i) < 65536"
  shows "fst (onion_touch_read adc channel s)
           = (mean4 adc (adc_reads s) < uint (threshold (onion_lut s ! channel)))
         \<and> uint (last_raw_values (snd (onion_touch_read adc channel s)) ! channel)
              = mean4 adc (adc_reads s)
         \<and> (\<forall>j<16. j \<noteq> channel \<longrightarrow>
               last_raw_values (snd (onion_touch_read adc channel s)) ! j = last_raw_values s ! j)
         \<and> mux_addr (snd (onion_touch_read adc channel s)) = channel"
proof -
  let ?n = "adc_reads s"
  let ?raw = "ucast (drop_bit 2 (word_of_int (adc ?n) + word_of_int (adc (?n + 1))
                + word_of_int (adc (?n + 2)) + word_of_int (adc (?n + 3)) :: 32 word)) :: 16 word"
  have r0: "0 \<le> adc ?n \<and> adc ?n < 65536" using rng [rule_format, of 0] by simp
  have r1: "0 \<le> adc (?n + 1) \<and> adc (?n + 1) < 65536" using rng [rule_format, of 1] by simp
  have r2: "0 \<le> adc (?n + 2) \<and> adc (?n + 2) < 65536" using rng [rule_format, of 2] by simp
  have r3: "0 \<le> adc (?n + 3) \<and> adc (?n + 3) < 65536" using rng [rule_format, of 3] by simp
  have m: "uint ?raw = mean4 adc ?n"
    unfolding mean4_def using r0 r1 r2 r3 by (intro mean_fits) auto
  have rd: "onion_touch_read adc channel s
      = (?raw < threshold (onion_lut s ! channel),
         (set_mux_address channel s)\<lparr>adc_reads := ?n + 4,
            last_raw_values := (last_raw_values s)[channel := ?raw]\<rparr>)"
    by (simp add: onion_touch_read_def Let_def adc_accumulate_4 set_mux_address_def)
  have "(?raw < threshold (onion_lut s ! channel))
          = (uint ?raw < uint (threshold (onion_lut s ! channel)))"
    by (rule word_less_def)
  with m have a: "fst (onion_touch_read adc channel s)
           = (mean4 adc ?n < uint (threshold (onion_lut s ! channel)))"
    by (simp add: rd)
  have b: "uint (last_raw_values (snd (onion_touch_read adc channel s)) ! channel) = mean4 adc ?n"
    using c len m by (simp add: rd)
  have d: "\<forall>j<16. j \<noteq> channel \<longrightarrow>
               last_raw_values (snd (onion_touch_read adc channel s)) ! j = last_raw_values s ! j"
    by (simp add: rd)
  have e: "mux_addr (snd (onion_touch_read adc channel s)) = channel"
    using c by (rule touch_read_mux)
  show ?thesis by (rule conjI [OF a conjI [OF b conjI [OF d e]]])
qed

text \<open>
  The scenarios of the specification: against the default threshold 3900, a sample of 500
  is a touch and a sample of 4000 is none. Reading channel 5 after start-up moves the
  multiplexer from address 0 to address 5.
\<close>

theorem onion_touch_read_spec_witness:
  "fst (onion_touch_read (\<lambda>n. 500) 0 (boot nvs_ok)) = True
   \<and> fst (onion_touch_read (\<lambda>n. 4000) 0 (boot nvs_ok)) = False
   \<and> threshold (onion_lut (boot nvs_ok) ! 0) = 3900
   \<and> last_raw_values (snd (onion_touch_read (\<lambda>n. 500) 0 (boot nvs_ok))) ! 0 = 500
   \<and> mean4 (\<lambda>n. 500) 0 = 500 \<and> mean4 (\<lambda>n. 4000) 0 = 4000
   \<and> mux_addr (boot nvs_ok) = 0
   \<and> mux_addr (snd (onion_touch_read (\<lambda>n. 500) 5 (boot nvs_ok))) = 5"
proof -
  have t: "threshold (onion_lut (boot nvs_ok) ! 0) = 3900"
    by (simp add: boot_def default_lut_def mk_key_def DEFAULT_THRESHOLD_def)
  have l: "length (last_raw_values (boot nvs_ok)) = 16" by (simp add: boot_def)
  have m: "mean4 (\<lambda>n. 500) 0 = 500" "mean4 (\<lambda>n. 4000) 0 = 4000" by (simp_all add: mean4_def)
  have a0: "adc_reads (boot nvs_ok) = 0" "mux_addr (boot nvs_ok) = 0" by (simp_all add: boot_def)
  have r1: "\<forall>i<4. 0 \<le> (\<lambda>n::nat. 500 :: int) (adc_reads (boot nvs_ok) + i)
                 \<and> (\<lambda>n::nat. 500 :: int) (adc_reads (boot nvs_ok) + i) < 65536" by simp
  have r2: "\<forall>i<4. 0 \<le> (\<lambda>n::nat. 4000 :: int) (adc_reads (boot nvs_ok) + i)
                 \<and> (\<lambda>n::nat. 4000 :: int) (adc_reads (boot nvs_ok) + i) < 65536" by simp
  have c0: "(0::nat) < 16" and c5: "(5::nat) < 16" by simp_all
  note T0 = onion_touch_read_spec [OF c0 l r1]
  note T1 = onion_touch_read_spec [OF c0 l r2]
  note T5 = onion_touch_read_spec [OF c5 l r1]
  from T0 [THEN conjunct1] t m a0
  have A1: "fst (onion_touch_read (\<lambda>n. 500) 0 (boot nvs_ok)) = True" by simp
  from T0 [THEN conjunct2, THEN conjunct1] m a0
  have "uint (last_raw_values (snd (onion_touch_read (\<lambda>n. 500) 0 (boot nvs_ok))) ! 0) = 500"
    by simp
  then have A2: "last_raw_values (snd (onion_touch_read (\<lambda>n. 500) 0 (boot nvs_ok))) ! 0 = 500"
    by (simp add: word_uint_eq_iff)
  from T1 [THEN conjunct1] t m a0
  have B: "fst (onion_touch_read (\<lambda>n. 4000) 0 (boot nvs_ok)) = False" by simp
  have C: "mux_addr (snd (onion_touch_read (\<lambda>n. 500) 5 (boot nvs_ok))) = 5"
    by (rule T5 [THEN conjunct2, THEN conjunct2, THEN conjunct2])
  from A1 A2 B C t m a0 show ?thesis by simp
qed

subsection \<open>Edge detection\<close>

lemma has_changed_unfold:
  "onion_touch_has_changed adc c s =
     (if fst (onion_touch_read adc c s) \<noteq> last_states s ! c
      then (True, (snd (onion_touch_read adc c s))
                    \<lparr>last_states := (last_states s)[c := fst (onion_touch_read adc c s)]\<rparr>)
      else (False, snd (onion_touch_read adc c s)))"
  by (simp add: onion_touch_has_changed_def split_beta touch_read_frame)

text \<open>
  After \<^verbatim>\<open>onion_touch_has_changed\<close>, edge or not, the stored state of the channel is the
  classification made inside the call.
\<close>

lemma has_changed_pressed:
  assumes "c < length (last_states s)"
  shows "last_states (snd (onion_touch_has_changed adc c s)) ! c = fst (onion_touch_read adc c s)"
  using assms by (simp add: has_changed_unfold touch_read_frame)

text \<open>An edge is reported exactly when the stored state of the channel flips.\<close>

lemma has_changed_edge_iff:
  assumes "c < length (last_states s)"
  shows "fst (onion_touch_has_changed adc c s)
           \<longleftrightarrow> last_states (snd (onion_touch_has_changed adc c s)) ! c \<noteq> last_states s ! c"
  using assms by (simp add: has_changed_unfold touch_read_frame)

lemma has_changed_others:
  "j \<noteq> c \<Longrightarrow> last_states (snd (onion_touch_has_changed adc c s)) ! j = last_states s ! j"
  by (simp add: has_changed_unfold touch_read_frame)

lemma has_changed_length:
  "length (last_states (snd (onion_touch_has_changed adc c s))) = length (last_states s)"
  by (simp add: has_changed_unfold touch_read_frame)

text \<open>
  C4. Debounce idempotence. Let \<^verbatim>\<open>onion_touch_has_changed\<close> report an edge on channel
  \<open>c\<close>, leading to state \<open>s1\<close>. In every later state \<open>s2\<close> in which the stored state of \<open>c\<close>
  is still the one the edge left there (\<open>s1\<close> itself, immediately after the edge), a call
  whose classification yields the same boolean as the one that fired the edge reports no
  edge and leaves all stored states as they are.
\<close>

theorem debounce_idempotent:
  assumes c: "c < 16" and len: "length (last_states s) = 16"
    and edge: "onion_touch_has_changed adc c s = (True, s1)"
    and kept: "last_states s2 ! c = last_states s1 ! c"
    and same: "fst (onion_touch_read adc c s2) = fst (onion_touch_read adc c s)"
  shows "fst (onion_touch_has_changed adc c s2) = False
         \<and> last_states (snd (onion_touch_has_changed adc c s2)) = last_states s2"
proof -
  have "last_states s1 ! c = fst (onion_touch_read adc c s)"
    using has_changed_pressed [of c s adc] c len edge by simp
  with kept same have "fst (onion_touch_read adc c s2) = last_states s2 ! c" by simp
  then show ?thesis by (simp add: has_changed_unfold touch_read_frame)
qed

text \<open>A pad that reads 500 twice in a row: the first call fires, the second does not.\<close>

theorem debounce_idempotent_witness:
  "fst (onion_touch_has_changed (\<lambda>n. 500) 3 (boot nvs_ok)) = True
   \<and> fst (onion_touch_has_changed (\<lambda>n. 500) 3
            (snd (onion_touch_has_changed (\<lambda>n. 500) 3 (boot nvs_ok)))) = False"
proof -
  let ?adc = "\<lambda>n::nat. 500 :: int"
  let ?s1 = "snd (onion_touch_has_changed ?adc 3 (boot nvs_ok))"
  have f: "fst (onion_touch_has_changed ?adc 3 (boot nvs_ok)) = True"
    by (simp add: has_changed_unfold onion_touch_read_def set_mux_address_def Let_def
        adc_accumulate_4 boot_def default_lut_def mk_key_def DEFAULT_THRESHOLD_def)
  then have e: "onion_touch_has_changed ?adc 3 (boot nvs_ok) = (True, ?s1)"
    by (simp add: prod_eq_iff)
  have r: "fst (onion_touch_read ?adc 3 ?s1) = fst (onion_touch_read ?adc 3 (boot nvs_ok))"
    by (simp add: has_changed_unfold onion_touch_read_def set_mux_address_def Let_def
        adc_accumulate_4 boot_def default_lut_def mk_key_def DEFAULT_THRESHOLD_def)
  have l: "length (last_states (boot nvs_ok)) = 16" by (simp add: boot_def)
  from debounce_idempotent [of 3 "boot nvs_ok" ?adc ?s1 ?s1, OF _ l e refl r] f
  show ?thesis by simp
qed

subsection \<open>Keymap store\<close>

lemma save_frame:
  "onion_lut (snd (onion_config_save s)) = onion_lut s"
  "last_states (snd (onion_config_save s)) = last_states s"
  "stdout (snd (onion_config_save s)) = stdout s"
  "is_app_connected (snd (onion_config_save s)) = is_app_connected s"
  by (simp_all add: onion_config_save_def nvs_set_blob_def Let_def split_beta)

lemma boot_lut:
  "onion_lut (boot st) = default_lut"
  "nvs (boot st) = st"
  "last_states (boot st) = replicate 16 False"
  by (simp_all add: boot_def)

lemma save_healthy:
  assumes "nvs_healthy (nvs s)"
  shows "onion_config_save s = (ESP_OK, s\<lparr>nvs := (nvs s)\<lparr>nvs_blob := Some (onion_lut s)\<rparr>\<rparr>)"
  using assms by (simp add: nvs_healthy_def onion_config_save_def nvs_set_blob_def)

lemma init_after_boot:
  assumes "nvs_open_result st = ESP_OK" "\<not> nvs_read_fault st"
    and "nvs_blob st = Some b" "length b = 16"
  shows "onion_config_init (boot st) = (ESP_OK, (boot st)\<lparr>onion_lut := b\<rparr>)"
  using assms
  by (simp add: onion_config_init_def nvs_get_blob_def boot_lut default_lut_def Let_def)

text \<open>
  A call of \<^verbatim>\<open>onion_config_init\<close> that does not read a blob leaves the table in memory as
  it was.
\<close>

lemma init_failure_keeps_lut:
  assumes "nvs_open_result (nvs s) \<noteq> ESP_OK \<or> fst (nvs_get_blob (nvs s) (onion_lut s)) \<noteq> ESP_OK"
  shows "onion_lut (snd (onion_config_init s)) = onion_lut s"
proof -
  have "fst (nvs_get_blob (nvs s) (onion_lut s)) \<noteq> ESP_OK
      \<Longrightarrow> snd (nvs_get_blob (nvs s) (onion_lut s)) = onion_lut s"
    by (auto simp: nvs_get_blob_def split: option.splits if_splits)
  with assms show ?thesis
    by (auto simp: onion_config_init_def split_beta Let_def save_frame)
qed

text \<open>
  C5. \<^verbatim>\<open>onion_config_init\<close> when the store has no usable blob. If the store can be opened
  and reports \<^verbatim>\<open>ESP_ERR_NVS_NOT_FOUND\<close>, the call is \<^verbatim>\<open>onion_config_save\<close> on the
  untouched table: the table in memory stays as it was, and it is the stored blob
  afterwards whenever the store accepts the write. If the store reports any other error,
  or cannot be opened at all, the state is returned as it was: the table is kept and
  nothing is written. The call returns in every case. At start-up, whenever no blob is
  read, the table in memory afterwards is the compiled-in \<open>default_lut\<close>.
\<close>

theorem config_init_failures:
  "(nvs_open_result (nvs s) = ESP_OK
      \<and> fst (nvs_get_blob (nvs s) (onion_lut s)) = ESP_ERR_NVS_NOT_FOUND
     \<longrightarrow> onion_config_init s = (ESP_OK, snd (onion_config_save s))
         \<and> onion_lut (snd (onion_config_init s)) = onion_lut s
         \<and> (nvs_set_result (nvs s) = ESP_OK
              \<longrightarrow> nvs_blob (nvs (snd (onion_config_init s))) = Some (onion_lut s)))
   \<and> (nvs_open_result (nvs s) = ESP_OK
      \<and> fst (nvs_get_blob (nvs s) (onion_lut s)) \<noteq> ESP_ERR_NVS_NOT_FOUND
      \<and> fst (nvs_get_blob (nvs s) (onion_lut s)) \<noteq> ESP_OK
     \<longrightarrow> onion_config_init s = (ESP_OK, s))
   \<and> (nvs_open_result (nvs s) \<noteq> ESP_OK \<longrightarrow> snd (onion_config_init s) = s)
   \<and> (nvs_open_result st \<noteq> ESP_OK \<or> fst (nvs_get_blob st default_lut) \<noteq> ESP_OK
     \<longrightarrow> onion_lut (snd (onion_config_init (boot st))) = default_lut)"
proof -
  have unchanged: "fst (nvs_get_blob (nvs s) (onion_lut s)) \<noteq> ESP_OK
      \<Longrightarrow> snd (nvs_get_blob (nvs s) (onion_lut s)) = onion_lut s"
    by (auto simp: nvs_get_blob_def split: option.splits if_splits)
  have a: "nvs_open_result (nvs s) = ESP_OK
      \<and> fst (nvs_get_blob (nvs s) (onion_lut s)) = ESP_ERR_NVS_NOT_FOUND
     \<longrightarrow> onion_config_init s = (ESP_OK, snd (onion_config_save s))
         \<and> onion_lut (snd (onion_config_init s)) = onion_lut s
         \<and> (nvs_set_result (nvs s) = ESP_OK
              \<longrightarrow> nvs_blob (nvs (snd (onion_config_init s))) = Some (onion_lut s))"
    using unchanged
    by (simp add: onion_config_init_def split_beta Let_def save_frame)
       (simp add: onion_config_save_def nvs_set_blob_def)
  have b: "nvs_open_result (nvs s) = ESP_OK
      \<and> fst (nvs_get_blob (nvs s) (onion_lut s)) \<noteq> ESP_ERR_NVS_NOT_FOUND
      \<and> fst (nvs_get_blob (nvs s) (onion_lut s)) \<noteq> ESP_OK
     \<longrightarrow> onion_config_init s = (ESP_OK, s)"
    using unchanged by (simp add: onion_config_init_def split_beta Let_def)
  have c: "nvs_open_result (nvs s) \<noteq> ESP_OK \<longrightarrow> snd (onion_config_init s) = s"
    by (simp add: onion_config_init_def)
  have d: "nvs_open_result st \<noteq> ESP_OK \<or> fst (nvs_get_blob st default_lut) \<noteq> ESP_OK
     \<longrightarrow> onion_lut (snd (onion_config_init (boot st))) = default_lut"
    using init_failure_keeps_lut [of "boot st"] by (simp add: boot_lut)
  show ?thesis by (rule conjI [OF a conjI [OF b conjI [OF c d]]])
qed

text \<open>
  First boot on an empty store provisions it with the defaults; a stored blob of the
  wrong size and a store that cannot be opened leave the defaults in memory and the store
  as it was.
\<close>

theorem config_init_failures_witness:
  "fst (nvs_get_blob nvs_ok default_lut) = ESP_ERR_NVS_NOT_FOUND
   \<and> onion_lut (snd (onion_config_init (boot nvs_ok))) = default_lut
   \<and> nvs_blob (nvs (snd (onion_config_init (boot nvs_ok)))) = Some default_lut
   \<and> fst (nvs_get_blob nvs_long default_lut) = ESP_ERR_NVS_INVALID_LENGTH
   \<and> onion_config_init (boot nvs_long) = (ESP_OK, boot nvs_long)
   \<and> snd (onion_config_init (boot (nvs_ok\<lparr>nvs_open_result := ESP_FAIL\<rparr>)))
        = boot (nvs_ok\<lparr>nvs_open_result := ESP_FAIL\<rparr>)"
proof -
  let ?s = "boot nvs_ok" and ?t = "boot nvs_long"
  let ?u = "boot (nvs_ok\<lparr>nvs_open_result := ESP_FAIL\<rparr>)"
  have g1: "fst (nvs_get_blob (nvs ?s) (onion_lut ?s)) = ESP_ERR_NVS_NOT_FOUND"
    by (simp add: boot_lut nvs_get_blob_def nvs_ok_def)
  have o1: "nvs_open_result (nvs ?s) = ESP_OK" "nvs_set_result (nvs ?s) = ESP_OK"
    by (simp_all add: boot_lut nvs_ok_def)
  have A: "onion_lut (snd (onion_config_init ?s)) = onion_lut ?s
     \<and> nvs_blob (nvs (snd (onion_config_init ?s))) = Some (onion_lut ?s)"
    using config_init_failures [of ?s nvs_ok] g1 o1 by blast
  have g2: "fst (nvs_get_blob (nvs ?t) (onion_lut ?t)) = ESP_ERR_NVS_INVALID_LENGTH"
    by (simp add: boot_lut nvs_get_blob_def nvs_long_def default_lut_def)
  then have g2': "fst (nvs_get_blob (nvs ?t) (onion_lut ?t)) \<noteq> ESP_ERR_NVS_NOT_FOUND"
    "fst (nvs_get_blob (nvs ?t) (onion_lut ?t)) \<noteq> ESP_OK"
    by simp_all
  have o2: "nvs_open_result (nvs ?t) = ESP_OK" by (simp add: boot_lut nvs_long_def)
  have B: "onion_config_init ?t = (ESP_OK, ?t)"
    using config_init_failures [of ?t nvs_ok] g2' o2 by blast
  have o3: "nvs_open_result (nvs ?u) \<noteq> ESP_OK" by (simp add: boot_lut nvs_ok_def)
  have C: "snd (onion_config_init ?u) = ?u"
    using config_init_failures [of ?u nvs_ok] o3 by blast
  from A B C g1 g2 show ?thesis by (simp add: boot_lut)
qed


subsection \<open>Config protocol engine\<close>

lemma ucast16_sint: "uint (ucast (w :: 32 word) :: 16 word) = sint w mod 2 ^ 16"
proof -
  have "uint (ucast w :: 16 word) = take_bit LENGTH(16) (uint w)" by (rule unsigned_ucast_eq)
  also have "\<dots> = take_bit 16 (sint w)"
    by (simp add: sint_uint take_bit_signed_take_bit)
  finally show ?thesis by (simp add: take_bit_eq_mod)
qed

lemma ucast8_sint: "uint (ucast (w :: 32 word) :: 8 word) = sint w mod 2 ^ 8"
proof -
  have "uint (ucast w :: 8 word) = take_bit LENGTH(8) (uint w)" by (rule unsigned_ucast_eq)
  also have "\<dots> = take_bit 8 (sint w)"
    by (simp add: sint_uint take_bit_signed_take_bit)
  finally show ?thesis by (simp add: take_bit_eq_mod)
qed

lemma match_lit_take: "match_lit f inp = Some r \<Longrightarrow> take (length f) inp = f"
  by (induction f inp rule: match_lit.induct) (auto split: if_splits)

lemma match_lit_SET: "match_lit ''SET:'' line = Some r \<Longrightarrow> take 4 line = ''SET:''"
  using match_lit_take [of "''SET:''" line r] by (simp add: numeral_eq_Suc)

lemma sscanf_SET_prefix:
  assumes "sscanf_SET line = Some (ch, thr, key)"
  shows "take 4 line = ''SET:''"
proof -
  from assms obtain r where "match_lit ''SET:'' line = Some r"
    by (cases "match_lit ''SET:'' line") (simp_all add: sscanf_SET_def)
  then show ?thesis by (rule match_lit_SET)
qed

text \<open>A line on which \<^verbatim>\<open>sscanf\<close> converts three integers reaches the range check.\<close>

lemma process_line_SET:
  assumes "sscanf_SET line = Some (ch, thr, key)"
  shows "process_line line s = (if 0 \<le> sint ch \<and> sint ch < 16 then set_key ch thr key s else s)"
proof -
  have p: "take 4 line = ''SET:''" using assms by (rule sscanf_SET_prefix)
  then have "line \<noteq> ''CONNECT''" "line \<noteq> ''DISCONNECT''" by auto
  with p assms show ?thesis
    by (simp add: process_line_def word_sle_eq word_sless_alt)
qed

lemma set_key_lut:
  "onion_lut (set_key ch thr key s)
     = (onion_lut s)[nat (sint ch) :=
         (onion_lut s ! nat (sint ch))\<lparr>threshold := ucast thr, keycode := ucast key\<rparr>]"
  by (cases "nat (sint ch) < length (onion_lut s)")
     (simp_all add: set_key_def Let_def save_frame list_update_beyond)

text \<open>
  C7. A \<^verbatim>\<open>SET\<close> line whose three integers convert and whose channel is negative or at
  least 16: handling the line returns the state as it was, so no record of the keymap
  changes, the store is not written and nothing is printed. The same holds for the
  iteration of the task that receives the line terminator, and, while no \<^verbatim>\<open>CONNECT\<close>
  handshake is in force (otherwise the periodic \<^verbatim>\<open>RAW:\<close> line is printed as in every
  iteration), for the whole iteration.
\<close>

theorem set_out_of_range_ignored:
  assumes parse: "sscanf_SET (cstr buf) = Some (ch, thr, key)"
    and out: "sint ch < 0 \<or> 16 \<le> sint ch"
    and eol: "c = 10 \<or> c = 13"
  shows "process_line (cstr buf) s = s
       \<and> comms_receive c (buf, s) = ([], s)
       \<and> (\<not> is_app_connected s \<longrightarrow> onion_comms_iter c (buf, s) = ([], s))"
proof -
  have p: "process_line (cstr buf) s = s"
    using process_line_SET [OF parse, of s] out by auto
  have r: "comms_receive c (buf, s) = ([], s)"
    using eol p by (auto simp: comms_receive_def EOF_def)
  show ?thesis using p r by (simp add: onion_comms_iter_def telemetry_def)
qed

text \<open>The scenario of the specification, \<^verbatim>\<open>SET:20,100,5\<close>, and a negative channel.\<close>

theorem set_out_of_range_ignored_witness:
  "sscanf_SET (cstr ''SET:20,100,5'') = Some (20, 100, 5)
   \<and> process_line (cstr ''SET:20,100,5'') (boot nvs_ok) = boot nvs_ok
   \<and> comms_receive 10 (''SET:20,100,5'', boot nvs_ok) = ([], boot nvs_ok)
   \<and> onion_comms_iter 10 (''SET:20,100,5'', boot nvs_ok) = ([], boot nvs_ok)
   \<and> sscanf_SET (cstr ''SET:-1,100,5'') = Some (- 1, 100, 5)
   \<and> process_line (cstr ''SET:-1,100,5'') (boot nvs_ok) = boot nvs_ok"
proof -
  have p: "sscanf_SET (cstr ''SET:20,100,5'') = Some (20, 100, 5)"
    by (simp add: cstr_def sscanf_SET_def scan_d_def isspace_def isdigit_def clamp_long_def)
  have q: "sscanf_SET (cstr ''SET:-1,100,5'') = Some (- 1, 100, 5)"
    by (simp add: cstr_def sscanf_SET_def scan_d_def isspace_def isdigit_def clamp_long_def)
  have n: "\<not> is_app_connected (boot nvs_ok)" by (simp add: boot_def)
  from set_out_of_range_ignored [OF p, of 10 "boot nvs_ok"]
       set_out_of_range_ignored [OF q, of 10 "boot nvs_ok"] p q n
  show ?thesis by simp
qed

text \<open>
  C10. A \<^verbatim>\<open>SET\<close> line whose three integers convert and whose channel is in 0..15 stores
  the parsed threshold reduced modulo \<open>2^16\<close> and the parsed keycode reduced modulo \<open>2^8\<close> in
  the channel's record; values outside the range of the field, negative ones included,
  wrap and are not rejected. The records of the other channels are not changed.
\<close>

theorem set_stores_low_bits:
  assumes parse: "sscanf_SET line = Some (ch, thr, key)"
    and rng: "0 \<le> sint ch" "sint ch < 16" and len: "length (onion_lut s) = 16"
  shows "uint (threshold (onion_lut (process_line line s) ! nat (sint ch))) = sint thr mod 2 ^ 16
       \<and> uint (keycode (onion_lut (process_line line s) ! nat (sint ch))) = sint key mod 2 ^ 8
       \<and> (\<forall>j<16. j \<noteq> nat (sint ch) \<longrightarrow> onion_lut (process_line line s) ! j = onion_lut s ! j)
       \<and> process_line line s = set_key ch thr key s"
proof -
  have i: "nat (sint ch) < length (onion_lut s)" using rng len by simp
  have p: "process_line line s = set_key ch thr key s"
    using process_line_SET [OF parse, of s] rng by simp
  show ?thesis using i by (simp add: p set_key_lut ucast16_sint ucast8_sint)
qed

text \<open>
  \<^verbatim>\<open>SET:0,70000,300\<close> stores threshold 4464 and keycode 44; \<^verbatim>\<open>SET:1,-1,-2\<close> stores
  threshold 65535 and keycode 254.
\<close>

theorem set_stores_low_bits_witness:
  "sscanf_SET ''SET:0,70000,300'' = Some (0, 70000, 300)
   \<and> threshold (onion_lut (process_line ''SET:0,70000,300'' (boot nvs_ok)) ! 0) = 4464
   \<and> keycode (onion_lut (process_line ''SET:0,70000,300'' (boot nvs_ok)) ! 0) = 44
   \<and> sscanf_SET ''SET:1,-1,-2'' = Some (1, - 1, - 2)
   \<and> threshold (onion_lut (process_line ''SET:1,-1,-2'' (boot nvs_ok)) ! 1) = 65535
   \<and> keycode (onion_lut (process_line ''SET:1,-1,-2'' (boot nvs_ok)) ! 1) = 254"
proof -
  have p: "sscanf_SET ''SET:0,70000,300'' = Some (0, 70000, 300)"
    by (simp add: sscanf_SET_def scan_d_def isspace_def isdigit_def clamp_long_def)
  have q: "sscanf_SET ''SET:1,-1,-2'' = Some (1, - 1, - 2)"
    by (simp add: sscanf_SET_def scan_d_def isspace_def isdigit_def clamp_long_def)
  have l: "length (onion_lut (boot nvs_ok)) = 16" by (simp add: boot_def default_lut_def)
  have r0: "0 \<le> sint (0 :: 32 word)" "sint (0 :: 32 word) < 16" by simp_all
  have r1: "0 \<le> sint (1 :: 32 word)" "sint (1 :: 32 word) < 16" by simp_all
  note T0 = set_stores_low_bits [OF p r0 l]
  note T1 = set_stores_low_bits [OF q r1 l]
  from T0 [THEN conjunct1]
  have A1: "uint (threshold (onion_lut (process_line ''SET:0,70000,300'' (boot nvs_ok)) ! 0)) = 4464"
    by simp
  from T0 [THEN conjunct2, THEN conjunct1]
  have A2: "uint (keycode (onion_lut (process_line ''SET:0,70000,300'' (boot nvs_ok)) ! 0)) = 44"
    by simp
  from T1 [THEN conjunct1]
  have B1: "uint (threshold (onion_lut (process_line ''SET:1,-1,-2'' (boot nvs_ok)) ! 1)) = 65535"
    by simp
  from T1 [THEN conjunct2, THEN conjunct1]
  have B2: "uint (keycode (onion_lut (process_line ''SET:1,-1,-2'' (boot nvs_ok)) ! 1)) = 254"
    by simp
  from A1 A2 B1 B2 p q show ?thesis by (simp add: word_uint_eq_iff)
qed

subsection \<open>Persistence round trip\<close>

text \<open>
  C2. Round trip. On a store on which every call succeeds, \<^verbatim>\<open>onion_config_save\<close> returns
  \<^verbatim>\<open>ESP_OK\<close>, and a restart (every global back at its initialiser, the store as the save
  left it) followed by \<^verbatim>\<open>onion_config_init\<close> yields a table with the same 16
  (keycode, threshold) pairs. The edge-detection memory \<^verbatim>\<open>last_states\<close> is not part of the
  blob and is all false after the restart (the member \<^verbatim>\<open>is_pressed\<close> of the records
  travels with the blob, but no function of the firmware reads or writes it). In
  particular, after the line \<^verbatim>\<open>SET:5,1000,4\<close> the reloaded table has threshold 1000 and
  keycode 4 on channel 5 and the former keycodes and thresholds on the other channels.
\<close>

theorem save_load_roundtrip:
  assumes len: "length (onion_lut s) = 16" and h: "nvs_healthy (nvs s)"
  shows "fst (onion_config_save s) = ESP_OK
       \<and> pairs (onion_lut (snd (onion_config_init (boot (nvs (snd (onion_config_save s)))))))
           = pairs (onion_lut s)
       \<and> last_states (snd (onion_config_init (boot (nvs (snd (onion_config_save s))))))
           = replicate 16 False
       \<and> (let r = snd (onion_config_init (boot (nvs (process_line ''SET:5,1000,4'' s))))
          in threshold (onion_lut r ! 5) = 1000 \<and> keycode (onion_lut r ! 5) = 4
             \<and> (\<forall>j<16. j \<noteq> 5 \<longrightarrow> keycode (onion_lut r ! j) = keycode (onion_lut s ! j)
                                   \<and> threshold (onion_lut r ! j) = threshold (onion_lut s ! j)))"
proof -
  let ?st = "(nvs s)\<lparr>nvs_blob := Some (onion_lut s)\<rparr>"
  have sv: "onion_config_save s = (ESP_OK, s\<lparr>nvs := ?st\<rparr>)" using h by (rule save_healthy)
  have ld: "onion_config_init (boot ?st) = (ESP_OK, (boot ?st)\<lparr>onion_lut := onion_lut s\<rparr>)"
    using h len by (intro init_after_boot) (simp_all add: nvs_healthy_def)
  have A: "fst (onion_config_save s) = ESP_OK" by (simp add: sv)
  have B: "pairs (onion_lut (snd (onion_config_init (boot (nvs (snd (onion_config_save s)))))))
           = pairs (onion_lut s)" by (simp add: sv ld)
  have C: "last_states (snd (onion_config_init (boot (nvs (snd (onion_config_save s))))))
           = replicate 16 False" by (simp add: sv ld boot_lut)
  have parse: "sscanf_SET ''SET:5,1000,4'' = Some (5, 1000, 4)"
    by (simp add: sscanf_SET_def scan_d_def isspace_def isdigit_def clamp_long_def)
  let ?lut = "(onion_lut s)[5 := (onion_lut s ! 5)\<lparr>threshold := 1000, keycode := 4\<rparr>]"
  let ?s2 = "s\<lparr>onion_lut := ?lut\<rparr>"
  have pl: "process_line ''SET:5,1000,4'' s = snd (onion_config_save ?s2)"
    using process_line_SET [OF parse, of s] len by (simp add: set_key_def Let_def)
  have h2: "nvs_healthy (nvs ?s2)" using h by simp
  let ?st2 = "(nvs s)\<lparr>nvs_blob := Some ?lut\<rparr>"
  have sv2: "onion_config_save ?s2 = (ESP_OK, ?s2\<lparr>nvs := ?st2\<rparr>)"
    using save_healthy [OF h2] by simp
  have ld2: "onion_config_init (boot ?st2) = (ESP_OK, (boot ?st2)\<lparr>onion_lut := ?lut\<rparr>)"
    using h len by (intro init_after_boot) (simp_all add: nvs_healthy_def)
  have D: "let r = snd (onion_config_init (boot (nvs (process_line ''SET:5,1000,4'' s))))
          in threshold (onion_lut r ! 5) = 1000 \<and> keycode (onion_lut r ! 5) = 4
             \<and> (\<forall>j<16. j \<noteq> 5 \<longrightarrow> keycode (onion_lut r ! j) = keycode (onion_lut s ! j)
                                   \<and> threshold (onion_lut r ! j) = threshold (onion_lut s ! j))"
    using len by (simp add: pl sv2 ld2)
  show ?thesis by (rule conjI [OF A conjI [OF B conjI [OF C D]]])
qed

text \<open>
  The round trip from the start-up state, and the scenario of the specification on it:
  channel 5 reloads as (4, 1000), channel 0 as its default key \<open>0x1A\<close>.
\<close>

theorem save_load_roundtrip_witness:
  "nvs_healthy (nvs (boot nvs_ok)) \<and> length (onion_lut (boot nvs_ok)) = 16
   \<and> fst (onion_config_save (boot nvs_ok)) = ESP_OK
   \<and> pairs (onion_lut (snd (onion_config_init (boot (nvs (snd (onion_config_save (boot nvs_ok))))))))
        = pairs default_lut
   \<and> threshold (onion_lut (snd (onion_config_init
        (boot (nvs (process_line ''SET:5,1000,4'' (boot nvs_ok)))))) ! 5) = 1000
   \<and> keycode (onion_lut (snd (onion_config_init
        (boot (nvs (process_line ''SET:5,1000,4'' (boot nvs_ok)))))) ! 5) = 4
   \<and> keycode (onion_lut (snd (onion_config_init
        (boot (nvs (process_line ''SET:5,1000,4'' (boot nvs_ok)))))) ! 0) = 0x1A"
proof -
  let ?r = "snd (onion_config_init (boot (nvs (process_line ''SET:5,1000,4'' (boot nvs_ok)))))"
  have h: "nvs_healthy (nvs (boot nvs_ok))" by (simp add: nvs_healthy_def boot_def nvs_ok_def)
  have l: "length (onion_lut (boot nvs_ok)) = 16" by (simp add: boot_def default_lut_def)
  have k: "keycode (onion_lut (boot nvs_ok) ! 0) = 0x1A"
    by (simp add: boot_def default_lut_def mk_key_def)
  note T = save_load_roundtrip [OF l h]
  have A: "fst (onion_config_save (boot nvs_ok)) = ESP_OK" by (rule T [THEN conjunct1])
  from T [THEN conjunct2, THEN conjunct1]
  have B: "pairs (onion_lut (snd (onion_config_init
              (boot (nvs (snd (onion_config_save (boot nvs_ok)))))))) = pairs default_lut"
    by (simp add: boot_lut)
  note D = T [THEN conjunct2, THEN conjunct2, THEN conjunct2, unfolded Let_def]
  have D1: "threshold (onion_lut ?r ! 5) = 1000" by (rule D [THEN conjunct1])
  have D2: "keycode (onion_lut ?r ! 5) = 4" by (rule D [THEN conjunct2, THEN conjunct1])
  from D [THEN conjunct2, THEN conjunct2, rule_format, of 0]
  have D0: "keycode (onion_lut ?r ! 0) = keycode (onion_lut (boot nvs_ok) ! 0)"
    by simp
  from h l A B D1 D2 D0 k show ?thesis by simp
qed

subsection \<open>Scan scheduler\<close>

lemma scan_channel_fst:
  "fst (scan_channel adc c as) = (fst as \<or> fst (onion_touch_has_changed adc c (snd as)))"
  by (simp add: scan_channel_def split_beta Let_def)

lemma scan_channel_snd:
  "snd (scan_channel adc c as) = snd (scan_channel adc c (False, snd as))"
  by (simp add: scan_channel_def split_beta Let_def)

lemma scan_channel_last_states:
  "last_states (snd (scan_channel adc c as))
     = last_states (snd (onion_touch_has_changed adc c (snd as)))"
  by (simp add: scan_channel_def split_beta Let_def send_key_report_frame touch_read_frame)

lemma has_changed_no_edge:
  "\<not> fst (onion_touch_has_changed adc c s)
     \<Longrightarrow> last_states (snd (onion_touch_has_changed adc c s)) = last_states s"
  by (simp add: has_changed_unfold touch_read_frame split: if_splits)

text \<open>
  The flag \<^verbatim>\<open>activity_detected\<close> after the sweep from \<open>i\<close>: set before, or set by an edge
  on one of the channels swept.
\<close>

lemma scan_from_activity:
  "fst (scan_from adc i as) = (fst as \<or> edge_channels adc i (snd as) \<noteq> [])"
proof (induction adc i as rule: scan_from.induct)
  case (1 adc i as)
  show ?case
  proof (cases "i < MUX_CHANNELS_COUNT")
    case True
    have "fst (scan_from adc i as) = fst (scan_from adc (Suc i) (scan_channel adc i as))"
      using True by (subst scan_from.simps) simp
    also have "\<dots> = (fst (scan_channel adc i as)
                      \<or> edge_channels adc (Suc i) (snd (scan_channel adc i as)) \<noteq> [])"
      using "1.IH" [OF True] .
    also have "\<dots> = (fst as \<or> edge_channels adc i (snd as) \<noteq> [])"
      using True
      by (subst (2) edge_channels.simps, subst scan_channel_snd)
         (auto simp: scan_channel_fst)
    finally show ?thesis .
  next
    case False
    then show ?thesis
      by (subst scan_from.simps, subst edge_channels.simps) simp
  qed
qed

text \<open>The sweep from \<open>i\<close> leaves the stored states of the channels below \<open>i\<close> alone.\<close>

lemma scan_from_below:
  "j < i \<Longrightarrow> last_states (snd (scan_from adc i as)) ! j = last_states (snd as) ! j"
proof (induction adc i as rule: scan_from.induct)
  case (1 adc i as)
  show ?case
  proof (cases "i < MUX_CHANNELS_COUNT")
    case True
    have "last_states (snd (scan_from adc i as)) ! j
            = last_states (snd (scan_from adc (Suc i) (scan_channel adc i as))) ! j"
      using True by (subst scan_from.simps) simp
    also have "\<dots> = last_states (snd (scan_channel adc i as)) ! j"
      using "1.IH" [OF True] "1.prems" by simp
    also have "\<dots> = last_states (snd as) ! j"
      using "1.prems" by (simp add: scan_channel_last_states has_changed_others)
    finally show ?thesis .
  next
    case False
    then show ?thesis by (subst scan_from.simps) simp
  qed
qed

text \<open>No edge fires during a sweep exactly when the sweep leaves every stored state as it was.\<close>

lemma scan_from_edges_flip:
  "length (last_states (snd as)) = MUX_CHANNELS_COUNT \<Longrightarrow>
   (edge_channels adc i (snd as) = [])
     = (last_states (snd (scan_from adc i as)) = last_states (snd as))"
proof (induction adc i as rule: scan_from.induct)
  case (1 adc i as)
  show ?case
  proof (cases "i < MUX_CHANNELS_COUNT")
    case True
    let ?as' = "scan_channel adc i as"
    have len': "length (last_states (snd ?as')) = MUX_CHANNELS_COUNT"
      using "1.prems" by (simp add: scan_channel_last_states has_changed_length)
    have ih: "(edge_channels adc (Suc i) (snd ?as') = [])
                = (last_states (snd (scan_from adc (Suc i) ?as')) = last_states (snd ?as'))"
      using "1.IH" [OF True len'] .
    have sf: "scan_from adc i as = scan_from adc (Suc i) ?as'"
      using True by (subst scan_from.simps) simp
    have ec: "edge_channels adc i (snd as)
                = (if fst (onion_touch_has_changed adc i (snd as)) then [i] else [])
                  @ edge_channels adc (Suc i) (snd ?as')"
      using True by (subst edge_channels.simps, subst scan_channel_snd) simp
    have ilen: "i < length (last_states (snd as))" using True "1.prems" by simp
    show ?thesis
    proof (cases "fst (onion_touch_has_changed adc i (snd as))")
      case True
      then have "last_states (snd ?as') ! i \<noteq> last_states (snd as) ! i"
        using has_changed_edge_iff [OF ilen, of adc] by (simp add: scan_channel_last_states)
      moreover have "last_states (snd (scan_from adc (Suc i) ?as')) ! i = last_states (snd ?as') ! i"
        by (rule scan_from_below) simp
      ultimately have "last_states (snd (scan_from adc i as)) \<noteq> last_states (snd as)"
        unfolding sf by metis
      with True ec show ?thesis by simp
    next
      case False
      then have "last_states (snd (onion_touch_has_changed adc i (snd as))) = last_states (snd as)"
        by (rule has_changed_no_edge)
      then have "last_states (snd ?as') = last_states (snd as)"
        by (simp add: scan_channel_last_states)
      with False ec ih sf show ?thesis by simp
    qed
  next
    case False
    then show ?thesis
      by (subst scan_from.simps, subst edge_channels.simps) simp
  qed
qed

text \<open>
  C9. Adaptive cadence. The delay handed to \<^verbatim>\<open>vTaskDelay\<close> at the end of a scan cycle is
  10 ms when \<^verbatim>\<open>onion_touch_has_changed\<close> reported an edge on at least one channel during
  the sweep, and 50 ms when it reported none. With 16 stored states, a cycle has an edge
  exactly when it changes a stored state.
\<close>

theorem adaptive_cadence:
  "fst (scan_cycle adc s) = (if edge_channels adc 0 s \<noteq> [] then 10 else 50)
   \<and> (length (last_states s) = 16 \<longrightarrow>
        (edge_channels adc 0 s \<noteq> []) = (last_states (snd (scan_cycle adc s)) \<noteq> last_states s))"
proof -
  have a: "fst (scan_cycle adc s) = (if edge_channels adc 0 s \<noteq> [] then 10 else 50)"
    using scan_from_activity [of adc 0 "(False, s)"]
    by (simp add: scan_cycle_def split_beta)
  have b: "length (last_states s) = 16 \<longrightarrow>
        (edge_channels adc 0 s \<noteq> []) = (last_states (snd (scan_cycle adc s)) \<noteq> last_states s)"
    using scan_from_edges_flip [of "(False, s)" adc 0]
    by (simp add: scan_cycle_def split_beta MUX_CHANNELS_COUNT_def)
  show ?thesis by (rule conjI [OF a b])
qed

lemma default_threshold: "i < 16 \<Longrightarrow> threshold (default_lut ! i) = 3900"
proof -
  assume i: "i < 16"
  have "length default_lut = 16" by (simp add: default_lut_def)
  with i have "i < length default_lut" by simp
  then have "default_lut ! i \<in> set default_lut" by (rule nth_mem)
  moreover have "\<forall>k \<in> set default_lut. threshold k = 3900"
    by (simp add: default_lut_def mk_key_def DEFAULT_THRESHOLD_def)
  ultimately show ?thesis by blast
qed

text \<open>
  With the default thresholds and no pad touched so far, a sweep in which every sample
  reads 4000 fires no edge.
\<close>

lemma quiet_sweep:
  "onion_lut s = default_lut \<Longrightarrow> last_states s = replicate 16 False
     \<Longrightarrow> edge_channels (\<lambda>n. 4000) i s = []"
proof (induction "16 - i" arbitrary: i s)
  case 0
  then show ?case by (subst edge_channels.simps) (simp add: MUX_CHANNELS_COUNT_def)
next
  case (Suc k)
  then have i: "i < 16" by simp
  let ?adc = "\<lambda>n::nat. 4000 :: int"
  have rd: "fst (onion_touch_read ?adc i s) = False"
    using default_threshold [OF i] Suc.prems(1)
    by (simp add: onion_touch_read_def Let_def adc_accumulate_4 set_mux_address_def)
  have st: "last_states s ! i = False" using i Suc.prems(2) by simp
  have hc: "onion_touch_has_changed ?adc i s = (False, snd (onion_touch_read ?adc i s))"
    using rd st by (simp add: has_changed_unfold)
  have sc: "snd (scan_channel ?adc i (False, s)) = snd (onion_touch_read ?adc i s)"
    by (simp add: scan_channel_def hc)
  have "edge_channels ?adc (Suc i) (snd (onion_touch_read ?adc i s)) = []"
    using Suc.hyps(2) Suc.prems by (intro Suc.hyps(1)) (simp_all add: touch_read_frame)
  then show ?case
    using i by (subst edge_channels.simps) (simp add: MUX_CHANNELS_COUNT_def hc sc)
qed

text \<open>
  A cycle in which pad 0 fires is followed by 10 ms, a cycle in which every pad reads 4000
  against the threshold 3900 by 50 ms.
\<close>

theorem adaptive_cadence_witness:
  "edge_channels adc_glitch 0 (boot nvs_ok) \<noteq> []
   \<and> fst (scan_cycle adc_glitch (boot nvs_ok)) = 10
   \<and> last_states (snd (scan_cycle adc_glitch (boot nvs_ok))) \<noteq> last_states (boot nvs_ok)
   \<and> edge_channels (\<lambda>n. 4000) 0 (boot nvs_ok) = []
   \<and> fst (scan_cycle (\<lambda>n. 4000) (boot nvs_ok)) = 50
   \<and> last_states (snd (scan_cycle (\<lambda>n. 4000) (boot nvs_ok))) = last_states (boot nvs_ok)"
proof -
  have "fst (onion_touch_has_changed adc_glitch 0 (boot nvs_ok))"
    by (simp add: has_changed_unfold onion_touch_read_def set_mux_address_def Let_def
        adc_accumulate_4 boot_def default_lut_def mk_key_def DEFAULT_THRESHOLD_def
        adc_glitch_def)
  then have e1: "edge_channels adc_glitch 0 (boot nvs_ok) \<noteq> []"
    by (subst edge_channels.simps) (simp add: MUX_CHANNELS_COUNT_def)
  have e2: "edge_channels (\<lambda>n. 4000) 0 (boot nvs_ok) = []"
    by (rule quiet_sweep) (simp_all add: boot_lut)
  have l: "length (last_states (boot nvs_ok)) = 16" by (simp add: boot_def)
  note T1 = adaptive_cadence [of adc_glitch "boot nvs_ok"]
  note T2 = adaptive_cadence [of "\<lambda>n. 4000" "boot nvs_ok"]
  from T1 [THEN conjunct1] e1 have a1: "fst (scan_cycle adc_glitch (boot nvs_ok)) = 10"
    by simp
  from T1 [THEN conjunct2, rule_format, OF l] e1
  have b1: "last_states (snd (scan_cycle adc_glitch (boot nvs_ok))) \<noteq> last_states (boot nvs_ok)"
    by simp
  from T2 [THEN conjunct1] e2 have a2: "fst (scan_cycle (\<lambda>n. 4000) (boot nvs_ok)) = 50"
    by simp
  from T2 [THEN conjunct2, rule_format, OF l] e2
  have b2: "last_states (snd (scan_cycle (\<lambda>n. 4000) (boot nvs_ok))) = last_states (boot nvs_ok)"
    by simp
  from e1 a1 b1 e2 a2 b2 show ?thesis by blast
qed

subsection \<open>The second sample taken by the scheduler\<close>

text \<open>
  What \<^verbatim>\<open>app_main\<close> does with a channel on which an edge fires: the value it reports is the
  result of a second call of \<^verbatim>\<open>onion_touch_read\<close>, on four new samples.
\<close>

lemma scan_channel_edge:
  assumes "fst (onion_touch_has_changed adc c s)"
  shows "scan_channel adc c (act, s)
           = (True, send_key_report
                (keycode (onion_lut s ! c))
                (fst (onion_touch_read adc c (snd (onion_touch_has_changed adc c s))))
                (snd (onion_touch_read adc c (snd (onion_touch_has_changed adc c s)))))"
proof -
  have "onion_lut (snd (onion_touch_has_changed adc c s)) = onion_lut s"
    by (simp add: has_changed_unfold touch_read_frame)
  with assms show ?thesis
    by (simp add: scan_channel_def split_beta Let_def touch_read_frame)
qed

text \<open>
  When the second classification agrees with the first, the value reported is the new
  stored state of the channel.
\<close>

lemma scan_channel_edge_stable:
  assumes "c < length (last_states s)" and "fst (onion_touch_has_changed adc c s)"
    and "fst (onion_touch_read adc c (snd (onion_touch_has_changed adc c s)))
           = fst (onion_touch_read adc c s)"
  shows "scan_channel adc c (act, s)
           = (True, send_key_report (keycode (onion_lut s ! c))
                (last_states (snd (onion_touch_has_changed adc c s)) ! c)
                (snd (onion_touch_read adc c (snd (onion_touch_has_changed adc c s)))))"
  using assms by (simp add: scan_channel_edge has_changed_pressed)

text \<open>
  Apart from \<^verbatim>\<open>onion_touch_has_changed\<close>, no operation writes \<^verbatim>\<open>last_states\<close>: not the
  classifier, not the dispatcher, not the keymap store, not the command handler.
\<close>

lemma init_last_states: "last_states (snd (onion_config_init s)) = last_states s"
  by (simp add: onion_config_init_def split_beta Let_def save_frame)

lemma process_line_last_states: "last_states (process_line line s) = last_states s"
  by (simp add: process_line_def print_cfg_def set_key_def Let_def save_frame
      split: option.splits)

text \<open>
  C1. The scheduler on the start-up state with a host connected, pad 0 sampled as
  \<open>adc_glitch\<close>. \<^verbatim>\<open>onion_touch_has_changed(0)\<close> reports an edge and records the new state
  \<open>True\<close> (pressed); the cycle is marked active; but the report handed to the transport
  is the all-zero release report, where \<^verbatim>\<open>send_key_report(0x1A, true)\<close> would have sent
  keycode \<open>0x1A\<close> in byte 2. The value passed is that of the second sample, not the edge
  value.
\<close>

theorem scan_channel_resamples:
  "fst (onion_touch_has_changed adc_glitch 0 boot_connected) = True
   \<and> last_states (snd (onion_touch_has_changed adc_glitch 0 boot_connected)) ! 0 = True
   \<and> fst (scan_channel adc_glitch 0 (False, boot_connected)) = True
   \<and> notified (snd (scan_channel adc_glitch 0 (False, boot_connected)))
        = [(1, 0, [0, 0, 0, 0, 0, 0, 0, 0])]
   \<and> notified (send_key_report (keycode (onion_lut boot_connected ! 0)) True boot_connected)
        = [(1, 0, [0, 0, 0x1A, 0, 0, 0, 0, 0])]"
  by (simp add: scan_channel_def has_changed_unfold onion_touch_read_def set_mux_address_def
      Let_def adc_accumulate_4 boot_def default_lut_def mk_key_def DEFAULT_THRESHOLD_def
      send_key_report_def ble_gatts_notify_custom_def build_report_eq
      adc_glitch_def boot_connected_def split_beta)

text \<open>
  C3. On the same input, after the scheduler has handled channel 0, the stored state of
  the channel is \<open>True\<close> while the last value the classifier returned for the channel,
  in the scheduler's own call of \<^verbatim>\<open>onion_touch_read\<close>, is \<open>False\<close>: the stored state is
  the last classification made inside \<^verbatim>\<open>onion_touch_has_changed\<close>, not the last
  classification made.
\<close>

theorem pressed_differs_from_last_classification:
  "last_states (snd (scan_channel adc_glitch 0 (False, boot_connected))) ! 0 = True
   \<and> fst (onion_touch_read adc_glitch 0 (snd (onion_touch_has_changed adc_glitch 0 boot_connected)))
        = False
   \<and> snd (scan_channel adc_glitch 0 (False, boot_connected))
        = send_key_report (keycode (onion_lut boot_connected ! 0)) False
             (snd (onion_touch_read adc_glitch 0
                (snd (onion_touch_has_changed adc_glitch 0 boot_connected))))"
  by (simp add: scan_channel_def has_changed_unfold onion_touch_read_def set_mux_address_def
      Let_def adc_accumulate_4 boot_def default_lut_def mk_key_def DEFAULT_THRESHOLD_def
      send_key_report_def ble_gatts_notify_custom_def build_report_eq
      adc_glitch_def boot_connected_def split_beta)

end
